theory Spec2Isabelle
  imports Complex_Main
begin

section \<open>The dialog of algobot/interface/other\_commands.py\<close>

text \<open>
  The class \<open>OtherCommands\<close> is a dialog whose methods are slots: each runs on the
  user-interface thread when a button is clicked or when a background worker delivers a
  callback. The embedding is a record of everything the methods read and write, one
  function per method, and a step function that dispatches an event to the slot that
  \<open>load_slots\<close>, \<open>start_date_thread\<close> and \<open>initiate_csv_generation\<close> connect to it.

  What Python does in the text of the file is modelled as it is, exceptions included
  (an attribute of \<open>None\<close>, a subscript of \<open>None\<close>, an unpacking of the wrong length).
  A widget is the properties the dialog sets on it, with the setter of Qt where the
  setter does more than store (a progress bar keeps its value when given one outside its
  range, a calendar orders its range and keeps the selected day inside it). The file
  system is a tree in which \<open>shutil.rmtree\<close> fails where it does on disk. The clock and
  the market-data client are inputs.
\<close>

subsection \<open>Values\<close>

text \<open>
  The exceptions that can leave a slot or the task of the lookup; \<open>ClientError\<close> is
  whatever the market-data client raises, with its message.
\<close>

datatype py_error =
    TypeError | AttributeError | IndexError | ValueError
  | FileNotFoundError | NotADirectoryError | PermissionError | OSError
  | ClientError string

text \<open>A slot either returns or raises; what it wrote before raising stays written.\<close>

datatype outcome = Returned | Raised py_error

text \<open>A logger is an opaque handle; the parent window is used for its logger only.\<close>

datatype logger = Logger nat

record QMainWindow =
  logger :: logger

text \<open>
  A calendar day, as a day number counted from 1970-01-01. A \<open>QDate\<close> and a
  \<open>datetime.date\<close> built from the same year, month and day are the same day, and
  PyQt compares the two kinds by the day they denote.
\<close>

type_synonym date = int

datatype StandardButton = Yes | No | Open | Close

text \<open>The modal boxes the dialog puts on the screen, in order.\<close>

datatype message_box =
    About string string
  | Question string string
  | Information string string

text \<open>
  The objects handed to the thread pool. \<open>DownloadThread\<close> and \<open>Worker\<close> are classes
  of other modules; a download thread is the arguments of its constructor together with
  the stop request that \<open>stop()\<close> leaves on it, a worker is the logger it was given (its
  function is always \<open>get_start_date_for_csv\<close>).
\<close>

record DownloadThread =
  interval :: string
  symbol :: string
  descending :: bool
  armyTime :: bool
  startDate :: "date option"
  thread_logger :: logger
  stop_requested :: bool

datatype runnable = Worker logger | Download DownloadThread

datatype kind = DateLookup | CsvGeneration

type_synonym ref = nat

record QCalendarWidget =
  minimumDate :: date
  maximumDate :: date
  selectedDate :: date

record QProgressBar =
  minimum :: int
  maximum :: int
  "value" :: int

text \<open>
  The file system, as a tree. Of every entry it is known whether the file system lets it
  be removed; of a symbolic link, also whether what it points to exists. The entries of
  a directory are in the order in which the directory lists them.
\<close>

datatype node =
    RegularFile bool
  | Symlink bool bool
  | Directory bool "(string \<times> node) list"

text \<open>
  The state: the attributes of the dialog, the widgets loaded from the user-interface
  file, the objects the dialog has created (addressed by reference, since the dialog and
  the thread pool share them), the runnables in flight in the thread pool, and the part
  of the world the slots touch.
\<close>

record dialog =
  parent :: "QMainWindow option"
  csvThread :: "ref option"
  setDateThread :: "ref option"
  currentDateList :: "date list option"
  infoLabel :: string
  csvGenerationStatus :: string
  csvGenerationProgressBar :: QProgressBar
  generateCSVButton :: bool
  stopButton :: bool
  csvGenerationTicker :: string
  csvGenerationTickerFocus :: bool
  csvGenerationDataInterval :: string
  descendingDateRadio :: bool
  armyDateRadio :: bool
  startDateCalendar :: QCalendarWidget
  objects :: "ref \<rightharpoonup> runnable"
  next_ref :: ref
  threadPool :: "(kind \<times> ref) list"
  filesystem :: node
  shown :: "message_box list"
  opened :: "string list"

text \<open>
  The module \<open>algobot.helpers\<close> is not part of the file: its root directory, its logger
  factory and its interval conversion are parameters. The logger factory is given the
  file system and returns it, so that a factory that creates its log directory is one
  of those the parameter stands for.
\<close>

record helpers =
  ROOT_DIR :: string
  get_logger :: "string \<Rightarrow> string \<Rightarrow> node \<Rightarrow> logger \<times> node"
  convert_long_interval :: "string \<Rightarrow> string"

subsection \<open>Strings and paths\<close>

definition ascii_uppercase :: string where
  "ascii_uppercase = ''ABCDEFGHIJKLMNOPQRSTUVWXYZ''"

definition ascii_lowercase :: string where
  "ascii_lowercase = ''abcdefghijklmnopqrstuvwxyz''"

definition char_lower :: "char \<Rightarrow> char" where
  "char_lower c =
     (case map_of (zip ascii_uppercase ascii_lowercase) c of None \<Rightarrow> c | Some d \<Rightarrow> d)"

definition char_upper :: "char \<Rightarrow> char" where
  "char_upper c =
     (case map_of (zip ascii_lowercase ascii_uppercase) c of None \<Rightarrow> c | Some d \<Rightarrow> d)"

text \<open>\<open>str.lower\<close> and \<open>str.capitalize\<close>, on ASCII text.\<close>

definition lower :: "string \<Rightarrow> string" where
  "lower s = map char_lower s"

definition capitalize :: "string \<Rightarrow> string" where
  "capitalize s = (case s of [] \<Rightarrow> [] | c # cs \<Rightarrow> char_upper c # map char_lower cs)"

text \<open>\<open>os.path.join\<close> of two components, with the separator of POSIX.\<close>

definition os_path_join :: "string \<Rightarrow> string \<Rightarrow> string" where
  "os_path_join a b =
     (if take 1 b = ''/'' then b
      else if a = [] \<or> last a = CHR ''/'' then a @ b
      else a @ ''/'' @ b)"

text \<open>
  A path is resolved name by name from the root of the tree, as the file system does it:
  empty names and \<open>.\<close> are passed over (so a doubled or a trailing slash makes no
  difference) and \<open>..\<close> goes up one directory. The root stands for the working
  directory too, and a symbolic link on the way to a path is not followed.
\<close>

fun split :: "char \<Rightarrow> string \<Rightarrow> string list" where
  "split sep [] = [[]]"
| "split sep (c # cs) =
     (if c = sep then [] # split sep cs
      else (case split sep cs of [] \<Rightarrow> [[c]] | w # ws \<Rightarrow> (c # w) # ws))"

definition resolve :: "string \<Rightarrow> string list" where
  "resolve path =
     foldl (\<lambda>found name.
              if name = [] \<or> name = ''.'' then found
              else if name = ''..'' then butlast found
              else found @ [name])
       [] (split CHR ''/'' path)"

text \<open>What is at a path; a name is looked up in directories only.\<close>

fun lookup :: "node \<Rightarrow> string list \<Rightarrow> node option" where
  "lookup n [] = Some n"
| "lookup (Directory r es) (c # cs) =
     (case map_of es c of None \<Rightarrow> None | Some child \<Rightarrow> lookup child cs)"
| "lookup (RegularFile r) (c # cs) = None"
| "lookup (Symlink r t) (c # cs) = None"

text \<open>\<open>os.path.exists\<close>: a symbolic link exists when what it points to does.\<close>

definition os_path_exists :: "node \<Rightarrow> string \<Rightarrow> bool" where
  "os_path_exists fs path =
     (case lookup fs (resolve path) of
        None \<Rightarrow> False
      | Some (Symlink r target_exists) \<Rightarrow> target_exists
      | Some _ \<Rightarrow> True)"

text \<open>
  Removing a tree, as \<open>shutil.rmtree\<close> goes through it: the entries of a directory in
  order, a directory after its entries, stopping at the first entry that the file system
  does not let go with everything removed so far staying removed. The result is the
  exception, if any, and what is left of the entry.
\<close>

fun rmtree_node :: "node \<Rightarrow> py_error option \<times> node option"
  and rmtree_entries :: "(string \<times> node) list \<Rightarrow> py_error option \<times> (string \<times> node) list" where
  "rmtree_node (RegularFile r) =
     (if r then (None, None) else (Some PermissionError, Some (RegularFile r)))"
| "rmtree_node (Symlink r t) =
     (if r then (None, None) else (Some PermissionError, Some (Symlink r t)))"
| "rmtree_node (Directory r es) =
     (case rmtree_entries es of
        (Some err, es') \<Rightarrow> (Some err, Some (Directory r es'))
      | (None, es') \<Rightarrow>
          if r then (None, None) else (Some PermissionError, Some (Directory r es')))"
| "rmtree_entries [] = (None, [])"
| "rmtree_entries ((name, child) # rest) =
     (case rmtree_node child of
        (Some err, Some child') \<Rightarrow> (Some err, (name, child') # rest)
      | (Some err, None) \<Rightarrow> (Some err, rest)
      | (None, left) \<Rightarrow> rmtree_entries rest)"

text \<open>Putting what is left in the place of the entry at a path, or taking the entry out.\<close>

fun put :: "string list \<Rightarrow> node option \<Rightarrow> node \<Rightarrow> node"
  and put_entry :: "string \<Rightarrow> string list \<Rightarrow> node option \<Rightarrow> (string \<times> node) list \<Rightarrow> (string \<times> node) list" where
  "put [] new n = (case new of None \<Rightarrow> n | Some n' \<Rightarrow> n')"
| "put (c # cs) new (Directory r es) = Directory r (put_entry c cs new es)"
| "put (c # cs) new (RegularFile r) = RegularFile r"
| "put (c # cs) new (Symlink r t) = Symlink r t"
| "put_entry c cs new [] = []"
| "put_entry c cs new ((name, child) # rest) =
     (if name = c then
        (if cs = [] then
           (case new of
              None \<Rightarrow> filter (\<lambda>(name', other). name' \<noteq> c) rest
            | Some n' \<Rightarrow> (name, n') # rest)
         else (name, put cs new child) # rest)
      else (name, child) # put_entry c cs new rest)"

text \<open>
  \<open>shutil.rmtree\<close>: the exception, if any, and the file system afterwards. It raises
  for a path that is not there, for a symbolic link and for a regular file, and when an
  entry of the tree cannot be removed; the root of the file system stays.
\<close>

definition shutil_rmtree :: "string \<Rightarrow> node \<Rightarrow> py_error option \<times> node" where
  "shutil_rmtree path fs =
     (let cs = resolve path in
      case lookup fs cs of
        None \<Rightarrow> (Some FileNotFoundError, fs)
      | Some (Symlink r t) \<Rightarrow> (Some OSError, fs)
      | Some (RegularFile r) \<Rightarrow> (Some NotADirectoryError, fs)
      | Some (Directory r es) \<Rightarrow>
          if cs = [] then
            (case rmtree_entries es of
               (Some err, es') \<Rightarrow> (Some err, Directory r es')
             | (None, es') \<Rightarrow> (Some PermissionError, Directory r es'))
          else
            (case rmtree_node (Directory r es) of (err, left) \<Rightarrow> (err, put cs left fs)))"

text \<open>A tree that the file system lets go entirely.\<close>

fun removable_tree :: "node \<Rightarrow> bool"
  and removable_entries :: "(string \<times> node) list \<Rightarrow> bool" where
  "removable_tree (RegularFile r) = r"
| "removable_tree (Symlink r t) = r"
| "removable_tree (Directory r es) = (r \<and> removable_entries es)"
| "removable_entries [] = True"
| "removable_entries ((name, child) # rest) = (removable_tree child \<and> removable_entries rest)"

text \<open>A path at which there is a directory, not the root, that can be removed with all
  that is in it.\<close>

definition removable_directory :: "node \<Rightarrow> string \<Rightarrow> bool" where
  "removable_directory fs path =
     (resolve path \<noteq> [] \<and>
      (case lookup fs (resolve path) of
         Some (Directory r es) \<Rightarrow> removable_tree (Directory r es)
       | _ \<Rightarrow> False))"

subsection \<open>The purge buttons\<close>

text \<open>The six buttons that \<open>load_slots\<close> connects to \<open>purge\<close>, each with its category.\<close>

datatype purge_button =
    purgeLogsButton
  | purgeDatabasesButton
  | purgeBacktestResultsButton
  | purgeConfigurationFilesButton
  | purgeCredentialsButton
  | purgeCSVFilesButton

fun purge_category :: "purge_button \<Rightarrow> string" where
  "purge_category purgeLogsButton = ''Logs''"
| "purge_category purgeDatabasesButton = ''Databases''"
| "purge_category purgeBacktestResultsButton = ''Backtest Results''"
| "purge_category purgeConfigurationFilesButton = ''Configuration''"
| "purge_category purgeCredentialsButton = ''Credentials''"
| "purge_category purgeCSVFilesButton = ''CSV''"

definition purge_warning :: "string \<Rightarrow> string" where
  "purge_warning directory = ''No '' @ lower directory @ '' files detected.''"

definition purge_question :: "string \<Rightarrow> string \<Rightarrow> string" where
  "purge_question directory path =
     ''Are you sure you want to delete your '' @ lower directory
       @ '' files? You might not be able to undo this operation. ''
       @ [CHR 0x0A, CHR 0x0A] @ ''The following path will be deleted: '' @ [CHR 0x0A] @ path"

definition purge_success :: "string \<Rightarrow> string" where
  "purge_success directory = capitalize directory @ '' files have been successfully deleted.''"

text \<open>
  \<open>purge\<close>. The argument \<open>ret\<close> is the button the user presses if the confirmation is
  put to them. An exception of \<open>shutil.rmtree\<close> leaves the slot before the label is
  set; the logger is created before it is assigned to the parent.
\<close>

definition purge :: "helpers \<Rightarrow> string \<Rightarrow> StandardButton \<Rightarrow> dialog \<Rightarrow> outcome \<times> dialog" where
  "purge h directory ret s =
     (let path = os_path_join (ROOT_DIR h) directory in
      if \<not> os_path_exists (filesystem s) path then
        (Returned, s\<lparr>shown := shown s @ [About ''Warning'' (purge_warning directory)]\<rparr>)
      else
        let s1 = s\<lparr>shown := shown s @ [Question ''Warning'' (purge_question directory path)]\<rparr> in
        if ret = Yes \<and> os_path_exists (filesystem s1) path then
          (case shutil_rmtree path (filesystem s1) of
             (Some err, left) \<Rightarrow> (Raised err, s1\<lparr>filesystem := left\<rparr>)
           | (None, left) \<Rightarrow>
               let s2 = s1\<lparr>filesystem := left\<rparr>;
                   s3 = s2\<lparr>infoLabel := purge_success directory\<rparr>
               in if directory = ''Logs'' then
                    (case get_logger h ''algobot'' ''algobot'' (filesystem s3) of
                       (created, fs) \<Rightarrow>
                         let s4 = s3\<lparr>filesystem := fs\<rparr>
                         in (case parent s4 of
                               None \<Rightarrow> (Raised AttributeError, s4)
                             | Some p \<Rightarrow>
                                 (Returned, s4\<lparr>parent := Some (p\<lparr>logger := created\<rparr>)\<rparr>)))
                  else (Returned, s3))
        else (Returned, s1))"

subsection \<open>The date lookup\<close>

text \<open>
  \<open>QProgressBar.setValue\<close>: a value outside the range of the bar is not taken, unless
  minimum and maximum are both 0.
\<close>

definition setValue :: "int \<Rightarrow> QProgressBar \<Rightarrow> QProgressBar" where
  "setValue v bar =
     (if (v > maximum bar \<or> v < minimum bar) \<and> (maximum bar \<noteq> 0 \<or> minimum bar \<noteq> 0)
      then bar else bar\<lparr>value := v\<rparr>)"

text \<open>Creating an object gives it the next free reference.\<close>

definition new_object :: "runnable \<Rightarrow> dialog \<Rightarrow> dialog" where
  "new_object obj s = s\<lparr>objects := (objects s)(next_ref s \<mapsto> obj), next_ref := Suc (next_ref s)\<rparr>"

text \<open>\<open>QThreadPool.start\<close>: the runnable is in flight from here on.\<close>

definition threadPool_start :: "kind \<Rightarrow> ref \<Rightarrow> dialog \<Rightarrow> dialog" where
  "threadPool_start k r s = s\<lparr>threadPool := threadPool s @ [(k, r)]\<rparr>"

definition start_date_thread :: "dialog \<Rightarrow> outcome \<times> dialog" where
  "start_date_thread s =
     (let s1 = s\<lparr>csvGenerationTickerFocus := False\<rparr>;
          s2 = s1\<lparr>csvGenerationStatus := ''Searching for earliest start date..''\<rparr>;
          s3 = s2\<lparr>csvGenerationProgressBar := setValue 0 (csvGenerationProgressBar s2)\<rparr>
      in case parent s3 of
           None \<Rightarrow> (Raised AttributeError, s3)
         | Some p \<Rightarrow>
             let r = next_ref s3;
                 s4 = new_object (Worker (logger p)) s3;
                 s5 = s4\<lparr>setDateThread := Some r\<rparr>
             in (Returned, threadPool_start DateLookup r s5))"



text \<open>
  \<open>QCalendarWidget.setDateRange\<close> and \<open>setSelectedDate\<close>: a range given the wrong way
  round is exchanged, and the selected day is moved into the range.
\<close>

definition into_range :: "date \<Rightarrow> date \<Rightarrow> date \<Rightarrow> date" where
  "into_range lo hi d = (if d < lo then lo else if d > hi then hi else d)"

definition setDateRange :: "date \<Rightarrow> date \<Rightarrow> QCalendarWidget \<Rightarrow> QCalendarWidget" where
  "setDateRange lo hi c =
     (let lo' = (if lo > hi then hi else lo);
          hi' = (if lo > hi then lo else hi)
      in c\<lparr>minimumDate := lo', maximumDate := hi', selectedDate := into_range lo' hi' (selectedDate c)\<rparr>)"

definition setSelectedDate :: "date \<Rightarrow> QCalendarWidget \<Rightarrow> QCalendarWidget" where
  "setSelectedDate d c = c\<lparr>selectedDate := into_range (minimumDate c) (maximumDate c) d\<rparr>"

text \<open>
  \<open>set_start_date_for_csv\<close>. The list is stored first; \<open>setDateRange(*startEndList)\<close>
  takes two arguments, so a list of another length raises there.
\<close>

definition set_start_date_for_csv :: "date list \<Rightarrow> dialog \<Rightarrow> outcome \<times> dialog" where
  "set_start_date_for_csv startEndList s =
     (let s1 = s\<lparr>currentDateList := Some startEndList\<rparr>
      in case startEndList of
           [a, b] \<Rightarrow>
             let s2 = s1\<lparr>startDateCalendar := setDateRange a b (startDateCalendar s1)\<rparr>;
                 s3 = s2\<lparr>startDateCalendar := setSelectedDate a (startDateCalendar s2)\<rparr>;
                 s4 = s3\<lparr>csvGenerationStatus := ''Setup filtered date successfully.''\<rparr>
             in (Returned, s4\<lparr>generateCSVButton := True\<rparr>)
         | _ \<Rightarrow> (Raised TypeError, s1))"

definition error_handle_for_csv_start_date :: "string \<Rightarrow> dialog \<Rightarrow> dialog" where
  "error_handle_for_csv_start_date error_message s =
     s\<lparr>csvGenerationStatus := error_message, generateCSVButton := False\<rparr>"

subsection \<open>The CSV generation\<close>

definition initiate_csv_generation :: "helpers \<Rightarrow> dialog \<Rightarrow> outcome \<times> dialog" where
  "initiate_csv_generation h s =
     (let symbol' = csvGenerationTicker s;
          descending' = descendingDateRadio s;
          armyTime' = armyDateRadio s;
          interval' = convert_long_interval h (csvGenerationDataInterval s);
          selected = selectedDate (startDateCalendar s)
      in case currentDateList s of
           None \<Rightarrow> (Raised TypeError, s)
         | Some [] \<Rightarrow> (Raised IndexError, s)
         | Some (first # _) \<Rightarrow>
             let startDate' = (if selected = first then None else Some selected);
                 s1 = s\<lparr>csvGenerationStatus := ''Downloading data...''\<rparr>
             in (case parent s1 of
                  None \<Rightarrow> (Raised AttributeError, s1)
                | Some p \<Rightarrow>
                    let thread = \<lparr>interval = interval', symbol = symbol',
                                  descending = descending', armyTime = armyTime',
                                  startDate = startDate', thread_logger = logger p,
                                  stop_requested = False\<rparr>;
                        r = next_ref s1;
                        s2 = new_object (Download thread) s1;
                        s3 = s2\<lparr>csvThread := Some r\<rparr>
                    in (Returned, threadPool_start CsvGeneration r s3)))"

definition progress_update :: "int \<Rightarrow> string \<Rightarrow> dialog \<Rightarrow> dialog" where
  "progress_update progress message s =
     s\<lparr>csvGenerationProgressBar := setValue progress (csvGenerationProgressBar s),
       csvGenerationStatus := message\<rparr>"

definition saved_message :: "string \<Rightarrow> string" where
  "saved_message savedPath = ''Successfully saved CSV data to '' @ savedPath @ ''.''"

text \<open>
  \<open>end_csv_generation\<close>. The argument \<open>choice\<close> is the button the user presses in the
  box; \<open>helpers.open_file_or_folder\<close> is recorded by the path it is called with.
\<close>

definition end_csv_generation :: "string \<Rightarrow> StandardButton \<Rightarrow> dialog \<Rightarrow> dialog" where
  "end_csv_generation savedPath choice s =
     (let msg = saved_message savedPath;
          s1 = s\<lparr>csvGenerationStatus := msg\<rparr>;
          s2 = s1\<lparr>csvGenerationProgressBar := setValue 100 (csvGenerationProgressBar s1)\<rparr>;
          s3 = s2\<lparr>generateCSVButton := True\<rparr>;
          s4 = s3\<lparr>shown := shown s3 @ [Information ''Data saved successfully.'' (saved_message savedPath)]\<rparr>
      in if choice = Open then s4\<lparr>opened := opened s4 @ [savedPath]\<rparr> else s4)"

definition disable_csv_state :: "dialog \<Rightarrow> dialog" where
  "disable_csv_state s = s\<lparr>generateCSVButton := False, stopButton := True\<rparr>"

definition restore_csv_state :: "dialog \<Rightarrow> dialog" where
  "restore_csv_state s = s\<lparr>generateCSVButton := True, stopButton := False, csvThread := None\<rparr>"

text \<open>
  Modelled from the spec: \<open>DownloadThread.stop\<close> is not in the file. The spec has
  cancellation signal the in-flight task to stop and leaves what the task does with the
  signal to the task: the request is left on the object.
\<close>

definition DownloadThread_stop :: "ref \<Rightarrow> (ref \<rightharpoonup> runnable) \<Rightarrow> (ref \<rightharpoonup> runnable)" where
  "DownloadThread_stop r objs =
     (case objs r of
        Some (Download t) \<Rightarrow> objs(r \<mapsto> Download (t\<lparr>stop_requested := True\<rparr>))
      | _ \<Rightarrow> objs)"

definition stop_csv_generation :: "dialog \<Rightarrow> dialog" where
  "stop_csv_generation s =
     (case csvThread s of
        None \<Rightarrow> s
      | Some r \<Rightarrow>
          let s1 = s\<lparr>csvGenerationStatus := ''Canceling download...''\<rparr>
          in s1\<lparr>objects := DownloadThread_stop r (objects s1)\<rparr>)"

definition handle_csv_generation_error :: "string \<Rightarrow> dialog \<Rightarrow> dialog" where
  "handle_csv_generation_error e s =
     s\<lparr>csvGenerationStatus := ''Download failed because of error: '' @ e\<rparr>"

subsection \<open>The dialog as it is created\<close>

text \<open>
  \<open>__init__\<close>: the widgets come from the user-interface file, which is not part of the
  file, so the dialog as loaded is an argument; the initialiser sets the parent, a thread
  pool with nothing in it and the three attributes.
\<close>

definition OtherCommands_init :: "QMainWindow option \<Rightarrow> dialog \<Rightarrow> dialog" where
  "OtherCommands_init parent' ui =
     ui\<lparr>parent := parent', threadPool := [], objects := Map.empty, next_ref := 0,
        csvThread := None, setDateThread := None, currentDateList := None\<rparr>"

subsection \<open>Events\<close>

text \<open>
  What reaches the dialog: the signals of its own widgets that \<open>load_slots\<close> connects,
  and the signals of the runnables that \<open>start_date_thread\<close> and
  \<open>initiate_csv_generation\<close> connect before they start them. A signal of a runnable
  names the runnable that sends it. A click carries the answer the user gives to the box
  the slot opens, if it opens one. The user also fills in the widgets that the slots
  read; no slot is connected to those.
\<close>

datatype event =
    generateCSVButton_clicked
  | stopButton_clicked
  | csvGenerationTicker_editingFinished
  | purgeButton_clicked purge_button StandardButton
  | worker_started ref
  | worker_finished ref "date list"
  | worker_error ref string
  | thread_started ref
  | thread_locked ref
  | thread_progress ref int string
  | thread_csv_finished ref string StandardButton
  | thread_error ref string
  | thread_restore ref
  | csvGenerationTicker_textEdited string
  | csvGenerationDataInterval_activated string
  | descendingDateRadio_toggled bool
  | armyDateRadio_toggled bool
  | startDateCalendar_clicked date

text \<open>
  A disabled button sends no click; a runnable sends signals while it is in flight; the
  \<open>finished\<close> signal of a lookup carries what \<open>get_start_date_for_csv\<close> returned, a
  list of two days; the calendar offers the days of its range.
\<close>

fun deliverable :: "event \<Rightarrow> dialog \<Rightarrow> bool" where
  "deliverable generateCSVButton_clicked s = generateCSVButton s"
| "deliverable stopButton_clicked s = stopButton s"
| "deliverable csvGenerationTicker_editingFinished s = True"
| "deliverable (purgeButton_clicked b ret) s = True"
| "deliverable (worker_started r) s = ((DateLookup, r) \<in> set (threadPool s))"
| "deliverable (worker_finished r dates) s =
     ((DateLookup, r) \<in> set (threadPool s) \<and> length dates = 2)"
| "deliverable (worker_error r msg) s = ((DateLookup, r) \<in> set (threadPool s))"
| "deliverable (thread_started r) s = ((CsvGeneration, r) \<in> set (threadPool s))"
| "deliverable (thread_locked r) s = ((CsvGeneration, r) \<in> set (threadPool s))"
| "deliverable (thread_progress r progress message) s = ((CsvGeneration, r) \<in> set (threadPool s))"
| "deliverable (thread_csv_finished r savedPath choice) s = ((CsvGeneration, r) \<in> set (threadPool s))"
| "deliverable (thread_error r e) s = ((CsvGeneration, r) \<in> set (threadPool s))"
| "deliverable (thread_restore r) s = ((CsvGeneration, r) \<in> set (threadPool s))"
| "deliverable (csvGenerationTicker_textEdited entered) s = True"
| "deliverable (csvGenerationDataInterval_activated chosen) s = True"
| "deliverable (descendingDateRadio_toggled checked) s = True"
| "deliverable (armyDateRadio_toggled checked) s = True"
| "deliverable (startDateCalendar_clicked d) s =
     (minimumDate (startDateCalendar s) \<le> d \<and> d \<le> maximumDate (startDateCalendar s))"

text \<open>
  Modelled from the spec: the classes \<open>Worker\<close> and \<open>DownloadThread\<close> are not in the
  file. A task delivers its result by callback: the date lookup is over with its
  \<open>finished\<close> or its \<open>error\<close> signal, the CSV generation with its \<open>restore\<close> signal
  (sent, as the slot connected to it says, once the generation process is finished).
\<close>

definition task_over :: "kind \<Rightarrow> ref \<Rightarrow> dialog \<Rightarrow> dialog" where
  "task_over k r s = s\<lparr>threadPool := removeAll (k, r) (threadPool s)\<rparr>"

text \<open>The slot each signal is connected to; an input of the user is stored in its widget.\<close>

fun slot :: "helpers \<Rightarrow> event \<Rightarrow> dialog \<Rightarrow> outcome \<times> dialog" where
  "slot h generateCSVButton_clicked s = initiate_csv_generation h s"
| "slot h stopButton_clicked s = (Returned, stop_csv_generation s)"
| "slot h csvGenerationTicker_editingFinished s = start_date_thread s"
| "slot h (purgeButton_clicked b ret) s = purge h (purge_category b) ret s"
| "slot h (worker_started r) s = (Returned, s\<lparr>generateCSVButton := False\<rparr>)"
| "slot h (worker_finished r dates) s =
     (case set_start_date_for_csv dates s of (out, s') \<Rightarrow> (out, task_over DateLookup r s'))"
| "slot h (worker_error r msg) s =
     (Returned, task_over DateLookup r (error_handle_for_csv_start_date msg s))"
| "slot h (thread_started r) s = (Returned, disable_csv_state s)"
| "slot h (thread_locked r) s = (Returned, s\<lparr>stopButton := False\<rparr>)"
| "slot h (thread_progress r progress message) s = (Returned, progress_update progress message s)"
| "slot h (thread_csv_finished r savedPath choice) s =
     (Returned, end_csv_generation savedPath choice s)"
| "slot h (thread_error r e) s = (Returned, handle_csv_generation_error e s)"
| "slot h (thread_restore r) s = (Returned, task_over CsvGeneration r (restore_csv_state s))"
| "slot h (csvGenerationTicker_textEdited entered) s =
     (Returned, s\<lparr>csvGenerationTicker := entered, csvGenerationTickerFocus := True\<rparr>)"
| "slot h (csvGenerationDataInterval_activated chosen) s =
     (Returned, s\<lparr>csvGenerationDataInterval := chosen\<rparr>)"
| "slot h (descendingDateRadio_toggled checked) s = (Returned, s\<lparr>descendingDateRadio := checked\<rparr>)"
| "slot h (armyDateRadio_toggled checked) s = (Returned, s\<lparr>armyDateRadio := checked\<rparr>)"
| "slot h (startDateCalendar_clicked d) s =
     (Returned, s\<lparr>startDateCalendar := setSelectedDate d (startDateCalendar s)\<rparr>)"

text \<open>An event that cannot be delivered leaves the dialog alone.\<close>

definition step :: "helpers \<Rightarrow> event \<Rightarrow> dialog \<Rightarrow> dialog" where
  "step h e s = (if deliverable e s then snd (slot h e s) else s)"

fun run :: "helpers \<Rightarrow> event list \<Rightarrow> dialog \<Rightarrow> dialog" where
  "run h [] s = s"
| "run h (e # es) s = run h es (step h e s)"

text \<open>A sequence of events that the dialog can go through: each is delivered and its
  slot returns.\<close>

fun feasible :: "helpers \<Rightarrow> event list \<Rightarrow> dialog \<Rightarrow> bool" where
  "feasible h [] s = True"
| "feasible h (e # es) s =
     (deliverable e s \<and> fst (slot h e s) = Returned \<and> feasible h es (step h e s))"

text \<open>The runnables of a kind that are in flight.\<close>

definition in_flight :: "kind \<Rightarrow> dialog \<Rightarrow> ref list" where
  "in_flight k s = map snd (filter (\<lambda>(k', r). k' = k) (threadPool s))"

text \<open>
  The reference in \<open>csvThread\<close>, when there is one, is that of a download thread the
  dialog has created.
\<close>

definition csvThread_valid :: "dialog \<Rightarrow> bool" where
  "csvThread_valid s \<longleftrightarrow>
     (case csvThread s of
        None \<Rightarrow> True
      | Some r \<Rightarrow> r < next_ref s \<and> (case objects s r of Some (Download t) \<Rightarrow> True | _ \<Rightarrow> False))"

text \<open>
  A stored date list has two days, and it and any lookup in flight come from a dialog
  that has its parent window.
\<close>

definition dates_valid :: "dialog \<Rightarrow> bool" where
  "dates_valid s \<longleftrightarrow>
     (case currentDateList s of
        None \<Rightarrow> True
      | Some dates \<Rightarrow> length dates = 2 \<and> parent s \<noteq> None)
     \<and> (in_flight DateLookup s \<noteq> [] \<longrightarrow> parent s \<noteq> None)"

text \<open>The signals whose slots enable the generate button.\<close>

fun enables_generate :: "event \<Rightarrow> bool" where
  "enables_generate (worker_finished r dates) = True"
| "enables_generate (thread_csv_finished r savedPath choice) = True"
| "enables_generate (thread_restore r) = True"
| "enables_generate e = False"

subsection \<open>A dialog to run\<close>

text \<open>Concrete values for the parameters, on which the slots are evaluated below.\<close>

definition example_helpers :: helpers where
  "example_helpers =
     \<lparr>ROOT_DIR = ''/home/user/algobot'',
      get_logger = (\<lambda>log_file logger_name fs. (Logger 1, fs)),
      convert_long_interval = (\<lambda>t. if t = ''1 Day'' then ''1d'' else t)\<rparr>"

definition example_parent :: QMainWindow where
  "example_parent = \<lparr>logger = Logger 0\<rparr>"

text \<open>
  A file system: the Logs directory holds a log file, the CSV directory a file that
  cannot be removed, and in the place of the Credentials directory there is a regular
  file.
\<close>

definition example_filesystem :: node where
  "example_filesystem =
     Directory False
       [(''home'', Directory False
          [(''user'', Directory True
             [(''algobot'', Directory True
                [(''Logs'', Directory True
                    [(''2021-03-01'', Directory True
                        [(''algobot.log'', RegularFile True)])]),
                 (''CSV'', Directory True
                    [(''BTCUSDT_1d.csv'', RegularFile True),
                     (''ETHUSDT_1d.csv'', RegularFile False)]),
                 (''Credentials'', RegularFile True),
                 (''settings.json'', RegularFile True)])])])]"

definition example_ui :: dialog where
  "example_ui =
     \<lparr>parent = None, csvThread = None, setDateThread = None, currentDateList = None,
      infoLabel = [], csvGenerationStatus = [],
      csvGenerationProgressBar = \<lparr>minimum = 0, maximum = 100, value = 0\<rparr>,
      generateCSVButton = True, stopButton = False,
      csvGenerationTicker = ''BTCUSDT'', csvGenerationTickerFocus = True,
      csvGenerationDataInterval = ''1 Day'',
      descendingDateRadio = False, armyDateRadio = True,
      startDateCalendar = \<lparr>minimumDate = 0, maximumDate = 0, selectedDate = 0\<rparr>,
      objects = Map.empty, next_ref = 0, threadPool = [],
      filesystem = example_filesystem,
      shown = [], opened = []\<rparr>"

definition example_dialog :: dialog where
  "example_dialog = OtherCommands_init (Some example_parent) example_ui"

text \<open>Two lookups, the second asked for before the first has answered.\<close>

definition two_lookups :: "event list" where
  "two_lookups = [csvGenerationTicker_editingFinished, csvGenerationTicker_editingFinished]"

text \<open>A lookup from its start to its answer: the days 2017-07-14 and 2021-03-01.\<close>

definition one_lookup :: "event list" where
  "one_lookup =
     [csvGenerationTicker_editingFinished, worker_started 0, worker_finished 0 [17361, 18687]]"

text \<open>A lookup that fails.\<close>

definition failed_lookup :: "event list" where
  "failed_lookup =
     [csvGenerationTicker_editingFinished, worker_started 0, worker_error 0 ''Invalid symbol.'']"

text \<open>
  A generation is started after a lookup; while it runs the ticker is edited again, the
  second lookup answers, and the generate button is clicked once more.
\<close>

definition two_generations :: "event list" where
  "two_generations =
     one_lookup @
     [generateCSVButton_clicked, thread_started 1,
      csvGenerationTicker_editingFinished, worker_started 2, worker_finished 2 [17361, 18687],
      generateCSVButton_clicked]"

text \<open>The dialog while a generation runs: a lookup has answered and the generate button
  has been clicked.\<close>

definition generating :: dialog where
  "generating =
     run example_helpers (one_lookup @ [generateCSVButton_clicked, thread_started 1]) example_dialog"

text \<open>The dialog after a lookup, and after the user has then picked a later day.\<close>

definition looked_up :: dialog where
  "looked_up = run example_helpers one_lookup example_dialog"

definition later_day_picked :: dialog where
  "later_day_picked = run example_helpers (one_lookup @ [startDateCalendar_clicked 18000]) example_dialog"

text \<open>What can arrive while the generate button is disabled without enabling it.\<close>

definition while_generating :: "event list" where
  "while_generating =
     [thread_progress 1 40 ''Downloaded 40 percent.'', generateCSVButton_clicked,
      csvGenerationTicker_textEdited ''ETHUSDT'',
      csvGenerationTicker_editingFinished, worker_started 2, stopButton_clicked,
      worker_error 2 ''Invalid symbol.'', thread_error 1 ''Connection lost.'']"





text \<open>The example dialog on a file system where the log file is held and cannot be removed.\<close>

definition locked_logs_dialog :: dialog where
  "locked_logs_dialog =
     example_dialog\<lparr>filesystem :=
       Directory False
         [(''home'', Directory False
            [(''user'', Directory True
               [(''algobot'', Directory True
                  [(''Logs'', Directory True
                      [(''2021-03-01'', Directory True
                          [(''algobot.log'', RegularFile False)])])])])])]\<rparr>"

section \<open>Properties\<close>

subsection \<open>Auxiliary facts\<close>

lemma filter_kind_removeAll:
  "k \<noteq> k' \<Longrightarrow>
   filter (\<lambda>(k'', r). k'' = k) (removeAll (k', r') xs) = filter (\<lambda>(k'', r). k'' = k) xs"
  by (induction xs) auto

lemma in_flight_task_over_other:
  "k \<noteq> k' \<Longrightarrow> in_flight k (task_over k' r s) = in_flight k s"
  by (simp add: in_flight_def task_over_def filter_kind_removeAll)

lemma in_flight_threadPool_start:
  "in_flight k (threadPool_start k' r s) = (if k' = k then in_flight k s @ [r] else in_flight k s)"
  by (simp add: in_flight_def threadPool_start_def)

lemma in_flight_mem: "r \<in> set (in_flight k s) \<longleftrightarrow> (k, r) \<in> set (threadPool s)"
  by (force simp: in_flight_def)

lemma in_flight_task_over_subset:
  "set (in_flight k (task_over k' r s)) \<subseteq> set (in_flight k s)"
  by (auto simp: in_flight_def task_over_def)

lemma purge_keeps_sequencing:
  "generateCSVButton (snd (purge h d ret s)) = generateCSVButton s"
  "threadPool (snd (purge h d ret s)) = threadPool s"
  by (simp_all add: purge_def Let_def split: option.splits prod.splits)

lemma purge_keeps_references:
  "setDateThread (snd (purge h d ret s)) = setDateThread s"
  "csvThread (snd (purge h d ret s)) = csvThread s"
  "objects (snd (purge h d ret s)) = objects s"
  "next_ref (snd (purge h d ret s)) = next_ref s"
  "currentDateList (snd (purge h d ret s)) = currentDateList s"
  by (simp_all add: purge_def Let_def split: option.splits prod.splits)

lemma purge_keeps_parent_present:
  "parent (snd (purge h d ret s)) = None \<longleftrightarrow> parent s = None"
  by (simp add: purge_def Let_def split: option.splits prod.splits)

lemma start_date_thread_generate:
  "generateCSVButton (snd (start_date_thread s)) = generateCSVButton s"
  by (simp add: start_date_thread_def Let_def new_object_def threadPool_start_def
      split: option.splits)

lemma start_date_thread_in_flight:
  "in_flight k (snd (start_date_thread s)) =
     (if k = DateLookup \<and> parent s \<noteq> None then in_flight k s @ [next_ref s] else in_flight k s)"
  by (auto simp: start_date_thread_def Let_def new_object_def threadPool_start_def in_flight_def
      split: option.splits)

lemma stop_csv_generation_sequencing:
  "generateCSVButton (stop_csv_generation s) = generateCSVButton s"
  "threadPool (stop_csv_generation s) = threadPool s"
  by (simp_all add: stop_csv_generation_def Let_def split: option.splits)

lemma set_start_date_for_csv_keeps:
  "threadPool (snd (set_start_date_for_csv dates s)) = threadPool s"
  "setDateThread (snd (set_start_date_for_csv dates s)) = setDateThread s"
  "csvThread (snd (set_start_date_for_csv dates s)) = csvThread s"
  by (simp_all add: set_start_date_for_csv_def Let_def split: list.splits)

lemma step_generate_disabled:
  assumes "\<not> generateCSVButton s" and "\<not> enables_generate e"
  shows "\<not> generateCSVButton (step h e s)
       \<and> in_flight CsvGeneration (step h e s) = in_flight CsvGeneration s"
proof (cases e)
  case generateCSVButton_clicked
  with assms show ?thesis by (simp add: step_def)
next
  case stopButton_clicked
  with assms show ?thesis
    by (simp add: step_def stop_csv_generation_sequencing in_flight_def)
next
  case csvGenerationTicker_editingFinished
  with assms show ?thesis
    by (simp add: step_def start_date_thread_generate start_date_thread_in_flight)
next
  case (purgeButton_clicked b ret)
  with assms show ?thesis
    by (simp add: step_def purge_keeps_sequencing in_flight_def)
next
  case (worker_started r)
  with assms show ?thesis by (simp add: step_def in_flight_def)
next
  case (worker_finished r dates)
  with assms show ?thesis by simp
next
  case (worker_error r msg)
  with assms show ?thesis
    by (simp add: step_def in_flight_task_over_other)
       (simp add: task_over_def error_handle_for_csv_start_date_def in_flight_def)
next
  case (thread_started r)
  with assms show ?thesis by (simp add: step_def disable_csv_state_def in_flight_def)
next
  case (thread_locked r)
  with assms show ?thesis by (simp add: step_def in_flight_def)
next
  case (thread_progress r p m)
  with assms show ?thesis by (simp add: step_def progress_update_def in_flight_def)
next
  case (thread_csv_finished r p c)
  with assms show ?thesis by simp
next
  case (thread_error r m)
  with assms show ?thesis by (simp add: step_def handle_csv_generation_error_def in_flight_def)
next
  case (thread_restore r)
  with assms show ?thesis by simp
next
  case (csvGenerationTicker_textEdited entered)
  with assms show ?thesis by (simp add: step_def in_flight_def)
next
  case (csvGenerationDataInterval_activated chosen)
  with assms show ?thesis by (simp add: step_def in_flight_def)
next
  case (descendingDateRadio_toggled checked)
  with assms show ?thesis by (simp add: step_def in_flight_def)
next
  case (armyDateRadio_toggled checked)
  with assms show ?thesis by (simp add: step_def in_flight_def)
next
  case (startDateCalendar_clicked d)
  with assms show ?thesis by (simp add: step_def in_flight_def)
qed

lemma run_generate_disabled:
  "\<not> generateCSVButton s \<Longrightarrow> \<forall>e \<in> set es. \<not> enables_generate e \<Longrightarrow>
   \<not> generateCSVButton (run h es s)
   \<and> in_flight CsvGeneration (run h es s) = in_flight CsvGeneration s"
proof (induction es arbitrary: s)
  case Nil
  then show ?case by simp
next
  case (Cons e es)
  from Cons.prems have e: "\<not> enables_generate e" and es: "\<forall>e \<in> set es. \<not> enables_generate e"
    by simp_all
  from step_generate_disabled [OF Cons.prems(1) e, of h]
  have d: "\<not> generateCSVButton (step h e s)"
    and f: "in_flight CsvGeneration (step h e s) = in_flight CsvGeneration s"
    by simp_all
  from Cons.IH [OF d es] f show ?case by simp
qed

lemma step_starts_generation_on_click_only:
  assumes "e \<noteq> generateCSVButton_clicked \<or> \<not> generateCSVButton s"
  shows "set (in_flight CsvGeneration (step h e s)) \<subseteq> set (in_flight CsvGeneration s)"
proof (cases e)
  case generateCSVButton_clicked
  with assms show ?thesis by (simp add: step_def)
next
  case stopButton_clicked
  then show ?thesis by (simp add: step_def stop_csv_generation_sequencing in_flight_def)
next
  case csvGenerationTicker_editingFinished
  then show ?thesis by (simp add: step_def start_date_thread_in_flight)
next
  case (purgeButton_clicked b ret)
  then show ?thesis by (simp add: step_def purge_keeps_sequencing in_flight_def)
next
  case (worker_finished r dates)
  have "in_flight CsvGeneration (snd (set_start_date_for_csv dates s)) = in_flight CsvGeneration s"
    by (simp add: in_flight_def set_start_date_for_csv_keeps)
  with worker_finished show ?thesis
    by (simp add: step_def case_prod_beta in_flight_task_over_other)
next
  case (worker_error r msg)
  then show ?thesis
    by (simp add: step_def in_flight_task_over_other)
       (simp add: error_handle_for_csv_start_date_def in_flight_def)
next
  case (thread_restore r)
  have "in_flight CsvGeneration (restore_csv_state s) = in_flight CsvGeneration s"
    by (simp add: in_flight_def restore_csv_state_def)
  with thread_restore in_flight_task_over_subset [of CsvGeneration CsvGeneration r "restore_csv_state s"]
  show ?thesis by (simp add: step_def)
qed (simp_all add: step_def in_flight_def disable_csv_state_def progress_update_def
      end_csv_generation_def handle_csv_generation_error_def Let_def)

subsection \<open>Removing a tree\<close>

text \<open>
  A tree that the file system lets go entirely is removed without an exception; the
  entry taken out of its directory is not found afterwards, and so nothing below it is.
\<close>

lemma rmtree_removable:
  "removable_tree n \<Longrightarrow> rmtree_node n = (None, None)"
  "removable_entries es \<Longrightarrow> rmtree_entries es = (None, [])"
  by (induction n and es rule: rmtree_node_rmtree_entries.induct) auto

lemma map_of_filter_other:
  "map_of (filter (\<lambda>(name', other). name' \<noteq> c) es) c = None"
  by (induction es) auto

lemma map_of_put_entry_remove: "map_of (put_entry c [] None es) c = None"
  by (induction es) (auto simp: map_of_filter_other)

lemma map_of_put_entry_deep:
  "cs \<noteq> [] \<Longrightarrow> map_of (put_entry c cs new es) c = map_option (put cs new) (map_of es c)"
  by (induction es) auto

lemma lookup_put_None: "cs \<noteq> [] \<Longrightarrow> lookup (put cs None fs) cs = None"
proof (induction cs arbitrary: fs)
  case Nil
  then show ?case by simp
next
  case (Cons c cs)
  show ?case
  proof (cases fs)
    case (Directory r es)
    show ?thesis
    proof (cases "cs = []")
      case True
      with Directory show ?thesis by (simp add: map_of_put_entry_remove)
    next
      case False
      with Directory Cons.IH show ?thesis
        by (simp add: map_of_put_entry_deep split: option.splits)
    qed
  qed simp_all
qed

lemma lookup_append:
  "lookup fs (cs @ names) = (case lookup fs cs of None \<Rightarrow> None | Some n \<Rightarrow> lookup n names)"
proof (induction fs cs rule: lookup.induct)
  case (1 n)
  then show ?case by simp
next
  case (2 r es c cs)
  then show ?case by (simp split: option.splits)
next
  case (3 r c cs)
  then show ?case by simp
next
  case (4 r t c cs)
  then show ?case by simp
qed

lemma rmtree_removable_directory:
  assumes "removable_directory fs path"
  shows "shutil_rmtree path fs = (None, put (resolve path) None fs)"
proof -
  from assms obtain r es where n: "resolve path \<noteq> []"
    and l: "lookup fs (resolve path) = Some (Directory r es)"
    and t: "removable_tree (Directory r es)"
    by (auto simp: removable_directory_def split: option.splits node.splits)
  from t have "rmtree_node (Directory r es) = (None, None)"
    by (rule rmtree_removable)
  with n l show ?thesis
    by (simp add: shutil_rmtree_def Let_def)
qed

lemma removable_directory_exists:
  "removable_directory fs path \<Longrightarrow> os_path_exists fs path"
  by (auto simp: removable_directory_def os_path_exists_def split: option.splits node.splits)

lemma gone_after_rmtree:
  assumes "removable_directory fs path"
  shows "lookup (snd (shutil_rmtree path fs)) (resolve path @ names) = None"
    and "\<not> os_path_exists (snd (shutil_rmtree path fs)) path"
proof -
  from assms have n: "resolve path \<noteq> []"
    by (simp add: removable_directory_def)
  from assms have r: "snd (shutil_rmtree path fs) = put (resolve path) None fs"
    by (simp add: rmtree_removable_directory)
  from n have g: "lookup (put (resolve path) None fs) (resolve path) = None"
    by (rule lookup_put_None)
  from r g show "lookup (snd (shutil_rmtree path fs)) (resolve path @ names) = None"
    by (simp add: lookup_append)
  from r g show "\<not> os_path_exists (snd (shutil_rmtree path fs)) path"
    by (simp add: os_path_exists_def)
qed

subsection \<open>Purging\<close>

text \<open>
  C1, as the spec has it: if the resolved path exists and the user answers Yes, \<open>purge\<close>
  deletes the path and sets the info label. It does not whenever \<open>shutil.rmtree\<close>
  raises. In the example, the path of the Credentials category is a regular file, and
  the CSV directory holds a file that cannot be removed: both paths exist, the user
  answers Yes, \<open>purge\<close> leaves with the exception, the path still exists and the info
  label is not set.
\<close>

theorem purge_of_a_file_counterexample:
  "os_path_exists (filesystem example_dialog) (os_path_join (ROOT_DIR example_helpers) ''Credentials'')
   \<and> fst (purge example_helpers ''Credentials'' Yes example_dialog) = Raised NotADirectoryError
   \<and> os_path_exists (filesystem (snd (purge example_helpers ''Credentials'' Yes example_dialog)))
         (os_path_join (ROOT_DIR example_helpers) ''Credentials'')
   \<and> infoLabel (snd (purge example_helpers ''Credentials'' Yes example_dialog)) = []
   \<and> os_path_exists (filesystem example_dialog) (os_path_join (ROOT_DIR example_helpers) ''CSV'')
   \<and> fst (purge example_helpers ''CSV'' Yes example_dialog) = Raised PermissionError
   \<and> os_path_exists (filesystem (snd (purge example_helpers ''CSV'' Yes example_dialog)))
         (os_path_join (ROOT_DIR example_helpers) ''CSV'')
   \<and> infoLabel (snd (purge example_helpers ''CSV'' Yes example_dialog)) = []"
  by code_simp

text \<open>
  C1, amended. For each of the six categories wired by \<open>load_slots\<close>: if the resolved
  path is a directory that the file system lets \<open>shutil.rmtree\<close> remove with all that
  is in it, and the user answers Yes to the confirmation, then \<open>shutil.rmtree\<close> removes
  the path with the tree under it without an exception, so that the path does not exist
  in the file system it leaves (and nothing below it does), and \<open>purge\<close> sets the info
  label to the success message of the category. For the five categories other than Logs
  this is the file system after \<open>purge\<close>, so the path does not exist afterwards; for
  Logs the logger factory is called on it, and the file system after \<open>purge\<close> is the
  one the factory leaves.
\<close>

theorem purge_deletes_and_reports:
  assumes "path = os_path_join (ROOT_DIR h) (purge_category b)"
    and "removable_directory (filesystem s) path"
    and "left = snd (shutil_rmtree path (filesystem s))"
  shows "fst (shutil_rmtree path (filesystem s)) = None
       \<and> \<not> os_path_exists left path
       \<and> (\<forall>names. lookup left (resolve path @ names) = None)
       \<and> infoLabel (snd (purge h (purge_category b) Yes s)) = purge_success (purge_category b)
       \<and> filesystem (snd (purge h (purge_category b) Yes s))
           = (if b = purgeLogsButton then snd (get_logger h ''algobot'' ''algobot'' left) else left)
       \<and> (b \<noteq> purgeLogsButton \<longrightarrow>
            \<not> os_path_exists (filesystem (snd (purge h (purge_category b) Yes s))) path)"
proof -
  from assms(2) have e: "os_path_exists (filesystem s) path"
    by (rule removable_directory_exists)
  from assms(2) have r: "shutil_rmtree path (filesystem s) = (None, left)"
    by (simp add: rmtree_removable_directory assms(3))
  from gone_after_rmtree [OF assms(2)] assms(3)
  have g: "\<not> os_path_exists left path" "\<And>names. lookup left (resolve path @ names) = None"
    by simp_all
  have l: "infoLabel (snd (purge h (purge_category b) Yes s)) = purge_success (purge_category b)"
    using e r assms(1) by (simp add: purge_def Let_def split: option.splits prod.splits)
  have f: "filesystem (snd (purge h (purge_category b) Yes s))
           = (if b = purgeLogsButton then snd (get_logger h ''algobot'' ''algobot'' left) else left)"
    using e r assms(1)
    by (cases b) (simp_all add: purge_def Let_def split: option.splits prod.splits)
  from r g l f show ?thesis by simp
qed

text \<open>
  The Logs directory of the example dialog, with a log file in it.
\<close>

theorem purge_deletes_and_reports_witness:
  "removable_directory (filesystem example_dialog) ''/home/user/algobot/Logs''
   \<and> \<not> os_path_exists (snd (shutil_rmtree ''/home/user/algobot/Logs'' (filesystem example_dialog)))
         ''/home/user/algobot/Logs''
   \<and> lookup (snd (shutil_rmtree ''/home/user/algobot/Logs'' (filesystem example_dialog)))
         (resolve ''/home/user/algobot/Logs'' @ [''2021-03-01'', ''algobot.log'']) = None
   \<and> infoLabel (snd (purge example_helpers ''Logs'' Yes example_dialog))
       = ''Logs files have been successfully deleted.''"
proof -
  have p: "''/home/user/algobot/Logs'' = os_path_join (ROOT_DIR example_helpers) (purge_category purgeLogsButton)"
    by (simp add: os_path_join_def example_helpers_def)
  have e: "removable_directory (filesystem example_dialog) ''/home/user/algobot/Logs''"
    by code_simp
  have c: "purge_success ''Logs'' = ''Logs files have been successfully deleted.''"
    by (simp add: purge_success_def capitalize_def char_lower_def char_upper_def
        ascii_uppercase_def ascii_lowercase_def)
  from purge_deletes_and_reports [OF p e refl] e c show ?thesis by simp
qed

text \<open>
  C2. For every category name, if the resolved path does not exist when \<open>purge\<close> is called,
  \<open>purge\<close> shows the warning box and returns; the box is the only change to the
  state: nothing is deleted, no confirmation is asked for, the info label stays.
\<close>

theorem purge_missing_path_warns:
  assumes "\<not> os_path_exists (filesystem s) (os_path_join (ROOT_DIR h) directory)"
  shows "purge h directory ret s
       = (Returned, s\<lparr>shown := shown s @ [About ''Warning'' (purge_warning directory)]\<rparr>)"
  using assms by (simp add: purge_def Let_def)

text \<open>
  The example dialog has no Databases directory.
\<close>

theorem purge_missing_path_warns_witness:
  "\<not> os_path_exists (filesystem example_dialog) (os_path_join (ROOT_DIR example_helpers) ''Databases'')
   \<and> purge example_helpers ''Databases'' Yes example_dialog
       = (Returned, example_dialog\<lparr>shown := [About ''Warning'' ''No databases files detected.'']\<rparr>)"
proof -
  have e: "\<not> os_path_exists (filesystem example_dialog)
             (os_path_join (ROOT_DIR example_helpers) ''Databases'')"
    by code_simp
  have w: "purge_warning ''Databases'' = ''No databases files detected.''"
    by (simp add: purge_warning_def lower_def char_lower_def ascii_uppercase_def ascii_lowercase_def)
  have n: "shown example_dialog = []"
    by (simp add: example_dialog_def OtherCommands_init_def example_ui_def)
  from purge_missing_path_warns [OF e, of Yes] e w n show ?thesis by simp
qed

text \<open>
  C9, as the spec has it: a confirmed purge of Logs replaces the logger of the parent
  window. It does not when \<open>shutil.rmtree\<close> raises: with a log file that cannot be
  removed, the Logs directory exists, the user answers Yes, \<open>purge\<close> leaves with the
  exception and the parent window has the logger it had.
\<close>

theorem purge_logs_held_counterexample:
  "os_path_exists (filesystem locked_logs_dialog) (os_path_join (ROOT_DIR example_helpers) ''Logs'')
   \<and> fst (purge example_helpers ''Logs'' Yes locked_logs_dialog) = Raised PermissionError
   \<and> parent locked_logs_dialog = Some \<lparr>logger = Logger 0\<rparr>
   \<and> parent (snd (purge example_helpers ''Logs'' Yes locked_logs_dialog)) = Some \<lparr>logger = Logger 0\<rparr>"
  by code_simp

text \<open>
  C9, amended. A confirmed purge of Logs whose directory the file system lets
  \<open>shutil.rmtree\<close> remove with all that is in it replaces the logger of the parent
  window by the logger that the factory creates for \<open>algobot\<close> after the removal; a
  purge of any of the other five categories leaves the parent window as it is, whatever
  the user answers and whatever becomes of the removal.
\<close>

theorem purge_replaces_logger_for_logs_only:
  "(removable_directory (filesystem s) (os_path_join (ROOT_DIR h) ''Logs'') \<longrightarrow>
      parent (snd (purge h (purge_category purgeLogsButton) Yes s))
        = map_option
            (\<lambda>p. p\<lparr>logger :=
                    fst (get_logger h ''algobot'' ''algobot''
                          (snd (shutil_rmtree (os_path_join (ROOT_DIR h) ''Logs'') (filesystem s))))\<rparr>)
            (parent s))
   \<and> (b \<noteq> purgeLogsButton \<longrightarrow> parent (snd (purge h (purge_category b) ret s)) = parent s)"
proof -
  have other: "parent (snd (purge h (purge_category b) ret s)) = parent s" if "b \<noteq> purgeLogsButton"
    using that by (cases b) (simp_all add: purge_def Let_def split: option.splits prod.splits)
  have logs: "parent (snd (purge h (purge_category purgeLogsButton) Yes s))
        = map_option
            (\<lambda>p. p\<lparr>logger :=
                    fst (get_logger h ''algobot'' ''algobot''
                          (snd (shutil_rmtree (os_path_join (ROOT_DIR h) ''Logs'') (filesystem s))))\<rparr>)
            (parent s)"
    if d: "removable_directory (filesystem s) (os_path_join (ROOT_DIR h) ''Logs'')"
  proof -
    from d have e: "os_path_exists (filesystem s) (os_path_join (ROOT_DIR h) ''Logs'')"
      by (rule removable_directory_exists)
    from d have r: "shutil_rmtree (os_path_join (ROOT_DIR h) ''Logs'') (filesystem s)
                    = (None, put (resolve (os_path_join (ROOT_DIR h) ''Logs'')) None (filesystem s))"
      by (rule rmtree_removable_directory)
    from e r show ?thesis
      by (simp add: purge_def Let_def split: option.splits prod.splits)
  qed
  from other logs show ?thesis by blast
qed

text \<open>
  Purging Logs changes the logger of the example parent; purging Credentials does not.
\<close>

theorem purge_replaces_logger_for_logs_only_witness:
  "removable_directory (filesystem example_dialog) (os_path_join (ROOT_DIR example_helpers) ''Logs'')
   \<and> parent example_dialog = Some \<lparr>logger = Logger 0\<rparr>
   \<and> parent (snd (purge example_helpers ''Logs'' Yes example_dialog)) = Some \<lparr>logger = Logger 1\<rparr>
   \<and> parent (snd (purge example_helpers ''Credentials'' Yes example_dialog)) = Some \<lparr>logger = Logger 0\<rparr>"
proof -
  have d: "removable_directory (filesystem example_dialog)
             (os_path_join (ROOT_DIR example_helpers) ''Logs'')"
    by code_simp
  have p: "parent example_dialog = Some \<lparr>logger = Logger 0\<rparr>"
    by code_simp
  have g: "fst (get_logger example_helpers ''algobot'' ''algobot'' fs) = Logger 1" for fs
    by (simp add: example_helpers_def)
  from purge_replaces_logger_for_logs_only [of example_dialog example_helpers purgeCredentialsButton Yes]
    d p g
  show ?thesis by simp
qed

subsection \<open>Callbacks of the workers\<close>

text \<open>
  C3, as the spec has it: the error message of either worker becomes the text of the status
  label as it is. The slot of the download worker does not do that: for the message
  \<open>Invalid symbol.\<close> the label reads otherwise.
\<close>

theorem csv_error_prefixed_counterexample:
  "csvGenerationStatus (handle_csv_generation_error ''Invalid symbol.'' example_dialog)
     \<noteq> ''Invalid symbol.''"
  by code_simp

text \<open>
  C3, amended. The error message of the date-lookup worker becomes the text of the
  status label as it is; the error message of the download worker is put on the label
  unchanged behind the words \<open>Download failed because of error: \<close>.
\<close>

theorem worker_errors_on_status_label:
  "csvGenerationStatus (error_handle_for_csv_start_date error_message s) = error_message
   \<and> csvGenerationStatus (handle_csv_generation_error e s)
       = ''Download failed because of error: '' @ e"
  by (simp add: error_handle_for_csv_start_date_def handle_csv_generation_error_def)

text \<open>
  C7, as the spec has it: every progress callback sets the progress bar to exactly the
  progress given. A progress bar does not take a value outside its range: on the bar of
  the example, from 0 to 100 and standing at 40, the progress 150 leaves the value 40.
\<close>

theorem progress_outside_range_counterexample:
  "csvGenerationProgressBar (progress_update 40 ''Downloaded 40 percent.'' example_dialog)
     = \<lparr>minimum = 0, maximum = 100, value = 40\<rparr>
   \<and> csvGenerationProgressBar
        (progress_update 150 ''Downloaded more.''
          (progress_update 40 ''Downloaded 40 percent.'' example_dialog))
     = \<lparr>minimum = 0, maximum = 100, value = 40\<rparr>"
  by code_simp

text \<open>
  C7, amended. A progress callback sets the status label to the message given, and sets
  the progress bar to the progress given when that lies within the range of the bar; a
  progress outside the range leaves the bar as it is (unless the range is from 0 to 0).
  The completion callback sets the status label to the message that names the saved
  path, enables the generate button, and sets the progress bar to 100 when 100 lies
  within the range of the bar.
\<close>

theorem progress_and_completion:
  "csvGenerationStatus (progress_update progress message s) = message
   \<and> (minimum (csvGenerationProgressBar s) \<le> progress
        \<and> progress \<le> maximum (csvGenerationProgressBar s) \<longrightarrow>
      value (csvGenerationProgressBar (progress_update progress message s)) = progress)
   \<and> ((progress < minimum (csvGenerationProgressBar s)
         \<or> maximum (csvGenerationProgressBar s) < progress)
        \<and> (minimum (csvGenerationProgressBar s) \<noteq> 0 \<or> maximum (csvGenerationProgressBar s) \<noteq> 0) \<longrightarrow>
      csvGenerationProgressBar (progress_update progress message s) = csvGenerationProgressBar s)
   \<and> csvGenerationStatus (end_csv_generation savedPath choice s)
       = ''Successfully saved CSV data to '' @ savedPath @ ''.''
   \<and> generateCSVButton (end_csv_generation savedPath choice s)
   \<and> (minimum (csvGenerationProgressBar s) \<le> 100 \<and> 100 \<le> maximum (csvGenerationProgressBar s) \<longrightarrow>
      value (csvGenerationProgressBar (end_csv_generation savedPath choice s)) = 100)"
  by (auto simp: progress_update_def end_csv_generation_def saved_message_def Let_def setValue_def)

text \<open>
  The bar of the example dialog, from 0 to 100.
\<close>

theorem progress_and_completion_witness:
  "csvGenerationProgressBar example_dialog = \<lparr>minimum = 0, maximum = 100, value = 0\<rparr>
   \<and> value (csvGenerationProgressBar (progress_update 40 ''Downloaded 40 percent.'' example_dialog)) = 40
   \<and> csvGenerationProgressBar (progress_update 150 ''Downloaded more.'' example_dialog)
       = \<lparr>minimum = 0, maximum = 100, value = 0\<rparr>
   \<and> value (csvGenerationProgressBar (end_csv_generation ''/home/user/algobot/CSV/BTCUSDT_1d.csv'' Close example_dialog)) = 100"
proof -
  have b: "csvGenerationProgressBar example_dialog = \<lparr>minimum = 0, maximum = 100, value = 0\<rparr>"
    by code_simp
  from progress_and_completion [of 40 "''Downloaded 40 percent.''" example_dialog]
    progress_and_completion [of 150 "''Downloaded more.''" example_dialog
       "''/home/user/algobot/CSV/BTCUSDT_1d.csv''" Close] b
  show ?thesis by simp
qed

subsection \<open>The date range\<close>






subsection \<open>What holds of the dialog after any sequence of events\<close>

text \<open>
  The reference in \<open>csvThread\<close> is that of a download thread.
\<close>

lemma csvThread_valid_init: "csvThread_valid (OtherCommands_init parent' ui)"
  by (simp add: csvThread_valid_def OtherCommands_init_def)

lemma csvThread_valid_start_date_thread:
  "csvThread_valid s \<Longrightarrow> csvThread_valid (snd (start_date_thread s))"
  by (auto simp: csvThread_valid_def start_date_thread_def Let_def new_object_def
      threadPool_start_def split: option.splits runnable.splits)

lemma csvThread_valid_initiate:
  "csvThread_valid s \<Longrightarrow> csvThread_valid (snd (initiate_csv_generation h s))"
  by (auto simp: csvThread_valid_def initiate_csv_generation_def Let_def new_object_def
      threadPool_start_def split: option.splits list.splits runnable.splits)

lemma csvThread_valid_purge:
  "csvThread_valid s \<Longrightarrow> csvThread_valid (snd (purge h d ret s))"
  by (simp only: csvThread_valid_def purge_keeps_references)

lemma csvThread_valid_stop:
  "csvThread_valid s \<Longrightarrow> csvThread_valid (stop_csv_generation s)"
  by (auto simp: csvThread_valid_def stop_csv_generation_def DownloadThread_stop_def Let_def
      split: option.splits runnable.splits)

lemma csvThread_valid_set_start_date:
  "csvThread_valid s \<Longrightarrow> csvThread_valid (task_over k r (snd (set_start_date_for_csv dates s)))"
  by (auto simp: csvThread_valid_def set_start_date_for_csv_def task_over_def Let_def
      split: option.splits list.splits runnable.splits)

lemma csvThread_valid_step: "csvThread_valid s \<Longrightarrow> csvThread_valid (step h e s)"
proof (cases e)
  case generateCSVButton_clicked
  then show "csvThread_valid s \<Longrightarrow> ?thesis"
    by (simp add: step_def csvThread_valid_initiate)
next
  case stopButton_clicked
  then show "csvThread_valid s \<Longrightarrow> ?thesis"
    by (simp add: step_def csvThread_valid_stop)
next
  case csvGenerationTicker_editingFinished
  then show "csvThread_valid s \<Longrightarrow> ?thesis"
    by (simp add: step_def csvThread_valid_start_date_thread)
next
  case (purgeButton_clicked b ret)
  then show "csvThread_valid s \<Longrightarrow> ?thesis"
    by (simp add: step_def csvThread_valid_purge)
next
  case (worker_finished r dates)
  then show "csvThread_valid s \<Longrightarrow> ?thesis"
    by (simp add: step_def case_prod_beta csvThread_valid_set_start_date)
qed (auto simp: step_def csvThread_valid_def task_over_def error_handle_for_csv_start_date_def
      disable_csv_state_def progress_update_def end_csv_generation_def Let_def
      handle_csv_generation_error_def restore_csv_state_def split: option.splits runnable.splits)

lemma csvThread_valid_run: "csvThread_valid s \<Longrightarrow> csvThread_valid (run h es s)"
  by (induction es arbitrary: s) (simp_all add: csvThread_valid_step)

text \<open>
  A stored date list has two days and the dialog that holds it has its parent window:
  the list comes from a lookup, and only a dialog with a parent starts one.
\<close>

lemma dates_valid_init: "dates_valid (OtherCommands_init parent' ui)"
  by (simp add: dates_valid_def OtherCommands_init_def in_flight_def)

lemma dates_valid_frame:
  assumes "dates_valid s"
    and "currentDateList s' = currentDateList s"
    and "parent s' = None \<longleftrightarrow> parent s = None"
    and "set (in_flight DateLookup s') \<subseteq> set (in_flight DateLookup s)"
  shows "dates_valid s'"
proof -
  from assms(4) have "in_flight DateLookup s' \<noteq> [] \<Longrightarrow> in_flight DateLookup s \<noteq> []"
    by auto
  with assms(1-3) show ?thesis
    by (auto simp: dates_valid_def split: option.splits)
qed

lemma dates_valid_step: "dates_valid s \<Longrightarrow> dates_valid (step h e s)"
proof (cases e)
  case generateCSVButton_clicked
  then show "dates_valid s \<Longrightarrow> ?thesis"
    by (auto simp: step_def dates_valid_def initiate_csv_generation_def Let_def new_object_def
        threadPool_start_def in_flight_def split: option.splits list.splits)
next
  case stopButton_clicked
  then show "dates_valid s \<Longrightarrow> ?thesis"
    by (auto simp: step_def dates_valid_def stop_csv_generation_def Let_def in_flight_def
        split: option.splits)
next
  case csvGenerationTicker_editingFinished
  then show "dates_valid s \<Longrightarrow> ?thesis"
    by (auto simp: step_def dates_valid_def start_date_thread_def Let_def new_object_def
        threadPool_start_def in_flight_def split: option.splits)
next
  case (purgeButton_clicked b ret)
  assume v: "dates_valid s"
  have "dates_valid (snd (purge h (purge_category b) ret s))"
    by (rule dates_valid_frame [OF v])
       (simp_all add: purge_keeps_references purge_keeps_parent_present in_flight_def
          purge_keeps_sequencing)
  with v purgeButton_clicked show ?thesis by (simp add: step_def)
next
  case (worker_finished r dates)
  show "dates_valid s \<Longrightarrow> ?thesis"
  proof (cases "deliverable e s")
    case False
    then show "dates_valid s \<Longrightarrow> ?thesis" by (simp add: step_def)
  next
    case True
    with worker_finished have m: "r \<in> set (in_flight DateLookup s)" and l: "length dates = 2"
      by (simp_all add: in_flight_mem)
    assume v: "dates_valid s"
    from m have "in_flight DateLookup s \<noteq> []" by auto
    with v have p: "parent s \<noteq> None" by (simp add: dates_valid_def)
    from l obtain a b where d: "dates = [a, b]"
      by (cases dates; cases "tl dates") auto
    from True worker_finished p d show ?thesis
      by (simp add: step_def dates_valid_def set_start_date_for_csv_def Let_def task_over_def)
  qed
next
  case (worker_error r msg)
  assume v: "dates_valid s"
  have "dates_valid (task_over DateLookup r (error_handle_for_csv_start_date msg s))"
    by (rule dates_valid_frame [OF v])
       (auto simp: task_over_def error_handle_for_csv_start_date_def in_flight_def)
  with v worker_error show ?thesis by (simp add: step_def)
next
  case (thread_restore r)
  assume v: "dates_valid s"
  have "dates_valid (task_over CsvGeneration r (restore_csv_state s))"
    by (rule dates_valid_frame [OF v])
       (auto simp: task_over_def restore_csv_state_def in_flight_def)
  with v thread_restore show ?thesis by (simp add: step_def)
next
  case (thread_csv_finished r savedPath choice)
  assume v: "dates_valid s"
  have "dates_valid (end_csv_generation savedPath choice s)"
    by (rule dates_valid_frame [OF v])
       (auto simp: end_csv_generation_def Let_def in_flight_def)
  with v thread_csv_finished show ?thesis by (simp add: step_def)
qed (auto simp: step_def dates_valid_def in_flight_def disable_csv_state_def progress_update_def
      handle_csv_generation_error_def split: option.splits)

lemma dates_valid_run: "dates_valid s \<Longrightarrow> dates_valid (run h es s)"
  by (induction es arbitrary: s) (simp_all add: dates_valid_step)

text \<open>
  The reference in \<open>setDateThread\<close> changes with the \<open>editingFinished\<close> signal of the
  ticker field and with nothing else.
\<close>

lemma setDateThread_step: "setDateThread s \<noteq> None \<Longrightarrow> setDateThread (step h e s) \<noteq> None"
proof (cases e)
  case generateCSVButton_clicked
  then show "setDateThread s \<noteq> None \<Longrightarrow> ?thesis"
    by (simp add: step_def initiate_csv_generation_def Let_def new_object_def threadPool_start_def
        split: option.splits list.splits)
next
  case stopButton_clicked
  then show "setDateThread s \<noteq> None \<Longrightarrow> ?thesis"
    by (simp add: step_def stop_csv_generation_def Let_def split: option.splits)
next
  case csvGenerationTicker_editingFinished
  then show "setDateThread s \<noteq> None \<Longrightarrow> ?thesis"
    by (simp add: step_def start_date_thread_def Let_def new_object_def threadPool_start_def
        split: option.splits)
next
  case (purgeButton_clicked b ret)
  then show "setDateThread s \<noteq> None \<Longrightarrow> ?thesis"
    by (simp add: step_def purge_keeps_references)
next
  case (worker_finished r dates)
  then show "setDateThread s \<noteq> None \<Longrightarrow> ?thesis"
    by (simp add: step_def case_prod_beta task_over_def set_start_date_for_csv_keeps)
qed (simp_all add: step_def task_over_def error_handle_for_csv_start_date_def
      disable_csv_state_def progress_update_def end_csv_generation_def Let_def
      handle_csv_generation_error_def restore_csv_state_def)

lemma setDateThread_run: "setDateThread s \<noteq> None \<Longrightarrow> setDateThread (run h es s) \<noteq> None"
proof (induction es arbitrary: s)
  case Nil
  then show ?case by simp
next
  case (Cons e es)
  from Cons.prems have "setDateThread (step h e s) \<noteq> None"
    by (rule setDateThread_step)
  then have "setDateThread (run h es (step h e s)) \<noteq> None"
    by (rule Cons.IH)
  then show ?case by simp
qed

lemma setDateThread_step_other:
  "e \<noteq> csvGenerationTicker_editingFinished \<Longrightarrow> setDateThread (step h e s) = setDateThread s"
proof (cases e)
  case generateCSVButton_clicked
  then show ?thesis
    by (simp add: step_def initiate_csv_generation_def Let_def new_object_def threadPool_start_def
        split: option.splits list.splits)
next
  case stopButton_clicked
  then show ?thesis
    by (simp add: step_def stop_csv_generation_def Let_def split: option.splits)
next
  case csvGenerationTicker_editingFinished
  then show "e \<noteq> csvGenerationTicker_editingFinished \<Longrightarrow> ?thesis" by simp
next
  case (purgeButton_clicked b ret)
  then show ?thesis by (simp add: step_def purge_keeps_references)
next
  case (worker_finished r dates)
  then show ?thesis
    by (simp add: step_def case_prod_beta task_over_def set_start_date_for_csv_keeps)
qed (simp_all add: step_def task_over_def error_handle_for_csv_start_date_def
      disable_csv_state_def progress_update_def end_csv_generation_def Let_def
      handle_csv_generation_error_def restore_csv_state_def)

lemma setDateThread_run_other:
  "\<forall>e \<in> set es. e \<noteq> csvGenerationTicker_editingFinished \<Longrightarrow>
   setDateThread (run h es s) = setDateThread s"
  by (induction es arbitrary: s) (simp_all add: setDateThread_step_other)

lemma setDateThread_step_lookup:
  "setDateThread (step h csvGenerationTicker_editingFinished s)
     = (if parent s = None then setDateThread s else Some (next_ref s))"
  by (simp add: step_def start_date_thread_def Let_def new_object_def threadPool_start_def
      split: option.splits)

subsection \<open>Starting the generation\<close>

text \<open>
  C10. In the dialog after any sequence of events: when a date list is stored,
  \<open>initiate_csv_generation\<close> creates a download thread, stores it in \<open>csvThread\<close> and
  starts it, and the start date of that thread is \<open>None\<close> exactly when the day selected
  in the calendar is the first element of the stored list, and is the selected day
  otherwise; when no date list is stored, the subscript of the absent list raises
  \<open>TypeError\<close> and the dialog is left as it was.
\<close>

theorem generation_start_date:
  assumes "s = run h es (OtherCommands_init parent' ui)"
  shows "(currentDateList s = None \<longrightarrow> initiate_csv_generation h s = (Raised TypeError, s))
       \<and> (\<forall>dates. currentDateList s = Some dates \<longrightarrow>
            fst (initiate_csv_generation h s) = Returned
            \<and> csvThread (snd (initiate_csv_generation h s)) = Some (next_ref s)
            \<and> (CsvGeneration, next_ref s) \<in> set (threadPool (snd (initiate_csv_generation h s)))
            \<and> (\<exists>t. objects (snd (initiate_csv_generation h s)) (next_ref s) = Some (Download t)
                  \<and> (startDate t = None \<longleftrightarrow> selectedDate (startDateCalendar s) = dates ! 0)
                  \<and> (selectedDate (startDateCalendar s) \<noteq> dates ! 0 \<longrightarrow>
                       startDate t = Some (selectedDate (startDateCalendar s)))))"
proof -
  from assms have v: "dates_valid s"
    by (simp add: dates_valid_run dates_valid_init)
  show ?thesis
  proof (cases "currentDateList s")
    case None
    then show ?thesis by (simp add: initiate_csv_generation_def Let_def)
  next
    case (Some dates)
    with v obtain a b p where "dates = [a, b]" and "parent s = Some p"
      by (cases dates; cases "tl dates") (auto simp: dates_valid_def)
    with Some show ?thesis
      by (simp add: initiate_csv_generation_def Let_def new_object_def threadPool_start_def)
  qed
qed

text \<open>
  After the example lookup: with the first day selected, with a later day picked,
  and before any lookup.
\<close>

theorem generation_start_date_witness:
  "currentDateList looked_up = Some [17361, 18687]
   \<and> selectedDate (startDateCalendar looked_up) = 17361
   \<and> selectedDate (startDateCalendar later_day_picked) = 18000
   \<and> (\<exists>t. objects (snd (initiate_csv_generation example_helpers looked_up)) 1 = Some (Download t)
          \<and> startDate t = None)
   \<and> (\<exists>t. objects (snd (initiate_csv_generation example_helpers later_day_picked)) 1
            = Some (Download t)
          \<and> startDate t = Some 18000)
   \<and> initiate_csv_generation example_helpers example_dialog = (Raised TypeError, example_dialog)"
proof -
  have rl: "looked_up = run example_helpers one_lookup
              (OtherCommands_init (Some example_parent) example_ui)"
    by (simp add: looked_up_def example_dialog_def)
  have rp: "later_day_picked = run example_helpers (one_lookup @ [startDateCalendar_clicked 18000])
              (OtherCommands_init (Some example_parent) example_ui)"
    by (simp add: later_day_picked_def example_dialog_def)
  have rd: "example_dialog = run example_helpers [] (OtherCommands_init (Some example_parent) example_ui)"
    by (simp add: example_dialog_def)
  have l: "currentDateList looked_up = Some [17361, 18687]" by code_simp
  have p: "currentDateList later_day_picked = Some [17361, 18687]" by code_simp
  have n: "currentDateList example_dialog = None" by code_simp
  have sl: "selectedDate (startDateCalendar looked_up) = 17361" by code_simp
  have sp: "selectedDate (startDateCalendar later_day_picked) = 18000" by code_simp
  have nl: "next_ref looked_up = 1" by code_simp
  have np: "next_ref later_day_picked = 1" by code_simp
  show ?thesis
    using generation_start_date [OF rl]
      generation_start_date [OF rp]
      generation_start_date [OF rd]
      l p n sl sp nl np
    by auto
qed

subsection \<open>Stopping the generation\<close>

text \<open>
  C8. In the dialog after any sequence of events: when \<open>csvThread\<close> holds a reference,
  the slot of the stop button sets the status label to \<open>Canceling download...\<close> and
  leaves the stop request on the download thread referred to, and changes nothing else;
  when \<open>csvThread\<close> is \<open>None\<close>, the slot changes nothing.
\<close>

theorem stop_signals_the_worker:
  assumes "s = run h es (OtherCommands_init parent' ui)"
  shows "(csvThread s = None \<longrightarrow> stop_csv_generation s = s)
       \<and> (\<forall>r. csvThread s = Some r \<longrightarrow>
            (\<exists>t. objects s r = Some (Download t)
               \<and> stop_csv_generation s
                   = s\<lparr>csvGenerationStatus := ''Canceling download...'',
                       objects := (objects s)(r \<mapsto> Download (t\<lparr>stop_requested := True\<rparr>))\<rparr>))"
proof -
  from assms have v: "csvThread_valid s"
    by (simp add: csvThread_valid_run csvThread_valid_init)
  show ?thesis
  proof (cases "csvThread s")
    case None
    then show ?thesis by (simp add: stop_csv_generation_def)
  next
    case (Some r)
    with v obtain t where "objects s r = Some (Download t)"
      by (auto simp: csvThread_valid_def split: option.splits runnable.splits)
    with Some show ?thesis
      by (simp add: stop_csv_generation_def DownloadThread_stop_def Let_def)
  qed
qed

text \<open>
  Stopping while the example generation runs, and stopping before anything was started.
\<close>

theorem stop_signals_the_worker_witness:
  "csvThread generating = Some 1
   \<and> csvGenerationStatus (stop_csv_generation generating) = ''Canceling download...''
   \<and> (\<exists>t. objects (stop_csv_generation generating) 1 = Some (Download t) \<and> stop_requested t)
   \<and> csvThread example_dialog = None
   \<and> stop_csv_generation example_dialog = example_dialog"
proof -
  have g: "generating
             = run example_helpers (one_lookup @ [generateCSVButton_clicked, thread_started 1])
                 (OtherCommands_init (Some example_parent) example_ui)"
    by (simp add: generating_def example_dialog_def)
  have d: "example_dialog = run example_helpers [] (OtherCommands_init (Some example_parent) example_ui)"
    by (simp add: example_dialog_def)
  have c: "csvThread generating = Some 1" by code_simp
  have n: "csvThread example_dialog = None" by code_simp
  from stop_signals_the_worker [OF g] c
  obtain t where o: "objects generating 1 = Some (Download t)"
    and s: "stop_csv_generation generating
              = generating\<lparr>csvGenerationStatus := ''Canceling download...'',
                  objects := (objects generating)(1 \<mapsto> Download (t\<lparr>stop_requested := True\<rparr>))\<rparr>"
    by auto
  from stop_signals_the_worker [OF d] n
  have i: "stop_csv_generation example_dialog = example_dialog"
    by simp
  from c n s i show ?thesis by simp
qed

subsection \<open>The references to the workers\<close>

text \<open>
  C4, as the spec has it: the dialog clears its reference to a worker when the task of the
  worker completes or fails. It does not for the date lookup: after a lookup that has
  answered, and after one that has failed, no lookup is in flight and \<open>setDateThread\<close>
  still holds the reference.
\<close>

theorem lookup_reference_kept_counterexample:
  "feasible example_helpers one_lookup example_dialog
   \<and> in_flight DateLookup (run example_helpers one_lookup example_dialog) = []
   \<and> setDateThread (run example_helpers one_lookup example_dialog) = Some 0
   \<and> feasible example_helpers failed_lookup example_dialog
   \<and> in_flight DateLookup (run example_helpers failed_lookup example_dialog) = []
   \<and> setDateThread (run example_helpers failed_lookup example_dialog) = Some 0"
  by code_simp

text \<open>
  C4, amended. The dialog clears \<open>csvThread\<close> in the slot of the \<open>restore\<close> signal of
  the download thread, with which the generation is over; the slots of \<open>csv_finished\<close>
  and of \<open>error\<close> leave \<open>csvThread\<close> as it is. The slots of the \<open>finished\<close> and
  \<open>error\<close> signals of the date lookup leave \<open>setDateThread\<close> as it is. Once
  \<open>setDateThread\<close> holds a reference no sequence of events clears it, and it is only
  ever replaced by the next lookup: a sequence of events without \<open>editingFinished\<close>
  of the ticker field leaves \<open>setDateThread\<close> as it is, and \<open>editingFinished\<close> in a
  dialog with a parent window puts the reference of the new lookup there.
\<close>

theorem worker_references:
  "((CsvGeneration, r) \<in> set (threadPool s) \<longrightarrow>
      csvThread (step h (thread_restore r) s) = None
      \<and> r \<notin> set (in_flight CsvGeneration (step h (thread_restore r) s)))
   \<and> csvThread (restore_csv_state s) = None
   \<and> csvThread (end_csv_generation savedPath choice s) = csvThread s
   \<and> csvThread (handle_csv_generation_error e s) = csvThread s
   \<and> setDateThread (snd (set_start_date_for_csv dates s)) = setDateThread s
   \<and> setDateThread (error_handle_for_csv_start_date error_message s) = setDateThread s
   \<and> (setDateThread s \<noteq> None \<longrightarrow> setDateThread (run h es s) \<noteq> None)
   \<and> ((\<forall>e \<in> set es. e \<noteq> csvGenerationTicker_editingFinished) \<longrightarrow>
        setDateThread (run h es s) = setDateThread s)
   \<and> setDateThread (step h csvGenerationTicker_editingFinished s)
       = (if parent s = None then setDateThread s else Some (next_ref s))"
proof -
  have a: "(CsvGeneration, r) \<in> set (threadPool s) \<longrightarrow>
      csvThread (step h (thread_restore r) s) = None
      \<and> r \<notin> set (in_flight CsvGeneration (step h (thread_restore r) s))"
    by (auto simp: step_def task_over_def in_flight_def restore_csv_state_def)
  have b: "csvThread (restore_csv_state s) = None"
    "csvThread (end_csv_generation savedPath choice s) = csvThread s"
    "csvThread (handle_csv_generation_error e s) = csvThread s"
    "setDateThread (error_handle_for_csv_start_date error_message s) = setDateThread s"
    by (simp_all add: restore_csv_state_def end_csv_generation_def Let_def
        handle_csv_generation_error_def error_handle_for_csv_start_date_def)
  from a b show ?thesis
    using setDateThread_run [of s h es] setDateThread_run_other [of es h s]
    by (simp add: set_start_date_for_csv_keeps setDateThread_step_lookup)
qed

text \<open>
  The restore signal of the example generation; the reference to the example lookup
  through the rest of the generation; and the next lookup.
\<close>

theorem worker_references_witness:
  "(CsvGeneration, 1) \<in> set (threadPool generating)
   \<and> csvThread generating = Some 1
   \<and> csvThread (step example_helpers (thread_restore 1) generating) = None
   \<and> in_flight CsvGeneration (step example_helpers (thread_restore 1) generating) = []
   \<and> setDateThread generating = Some 0
   \<and> setDateThread (run example_helpers
        [thread_progress 1 40 ''Downloaded 40 percent.'', stopButton_clicked,
         thread_csv_finished 1 ''/home/user/algobot/CSV/BTCUSDT_1d.csv'' Close, thread_restore 1]
        generating) = Some 0
   \<and> setDateThread (step example_helpers csvGenerationTicker_editingFinished generating) = Some 2"
proof -
  have a: "(CsvGeneration, 1) \<in> set (threadPool generating)" by code_simp
  have b: "csvThread generating = Some 1" by code_simp
  have c: "in_flight CsvGeneration (step example_helpers (thread_restore 1) generating) = []"
    by code_simp
  have d: "setDateThread generating = Some 0" by code_simp
  have p: "parent generating \<noteq> None" by code_simp
  have n: "next_ref generating = 2" by code_simp
  from worker_references
         [of 1 generating example_helpers _ _ _ _ _
            "[thread_progress 1 40 ''Downloaded 40 percent.'', stopButton_clicked,
              thread_csv_finished 1 ''/home/user/algobot/CSV/BTCUSDT_1d.csv'' Close,
              thread_restore 1]"]
    a b c d p n
  show ?thesis by simp
qed

subsection \<open>Workers in flight\<close>

text \<open>
  C5, as the spec has it: in every sequence of events at most one date lookup and at most one CSV
  generation are in flight. Both fail. Two lookups asked for in a row are both in
  flight; and a lookup that answers while a generation runs enables the generate button,
  so that a second generation is started beside the first.
\<close>

theorem one_worker_of_a_kind_counterexample:
  "feasible example_helpers two_lookups example_dialog
   \<and> in_flight DateLookup (run example_helpers two_lookups example_dialog) = [0, 1]
   \<and> feasible example_helpers two_generations example_dialog
   \<and> in_flight CsvGeneration (run example_helpers two_generations example_dialog) = [1, 3]"
  by code_simp

text \<open>
  C5, amended. While the generate button is disabled no CSV generation is started: from
  a dialog whose generate button is disabled, a sequence of events with none of the
  signals whose slots enable the button (\<open>finished\<close> of a lookup, \<open>csv_finished\<close>,
  \<open>restore\<close>) leaves the button disabled and the generations in flight as they were;
  and no event other than a click on the enabled generate button adds a generation to
  those in flight. A date lookup is started by every \<open>editingFinished\<close> of the ticker
  field of a dialog with a parent window, whatever is in flight already.
\<close>

theorem generate_button_gates_generation:
  "(\<not> generateCSVButton s \<and> (\<forall>e \<in> set es. \<not> enables_generate e) \<longrightarrow>
      \<not> generateCSVButton (run h es s)
      \<and> in_flight CsvGeneration (run h es s) = in_flight CsvGeneration s)
   \<and> (e \<noteq> generateCSVButton_clicked \<or> \<not> generateCSVButton s \<longrightarrow>
        set (in_flight CsvGeneration (step h e s)) \<subseteq> set (in_flight CsvGeneration s))
   \<and> (parent s \<noteq> None \<longrightarrow>
        in_flight DateLookup (step h csvGenerationTicker_editingFinished s)
          = in_flight DateLookup s @ [next_ref s])"
  using run_generate_disabled [of s es h] step_starts_generation_on_click_only [of e s h]
  by (simp add: step_def start_date_thread_in_flight)

text \<open>
  The example generation while it runs: the events that do not enable the button, a
  click on the disabled button, and another lookup.
\<close>

theorem generate_button_gates_generation_witness:
  "\<not> generateCSVButton generating
   \<and> in_flight CsvGeneration generating = [1]
   \<and> \<not> generateCSVButton (run example_helpers while_generating generating)
   \<and> in_flight CsvGeneration (run example_helpers while_generating generating) = [1]
   \<and> set (in_flight CsvGeneration (step example_helpers generateCSVButton_clicked generating)) \<subseteq> {1}
   \<and> in_flight DateLookup (step example_helpers csvGenerationTicker_editingFinished generating) = [2]"
proof -
  have a: "\<not> generateCSVButton generating" by code_simp
  have b: "\<forall>e \<in> set while_generating. \<not> enables_generate e"
    by (simp add: while_generating_def)
  have c: "in_flight CsvGeneration generating = [1]" by code_simp
  have d: "parent generating \<noteq> None" by code_simp
  have f: "in_flight DateLookup generating = []" by code_simp
  have n: "next_ref generating = 2" by code_simp
  from generate_button_gates_generation
         [of generating while_generating example_helpers generateCSVButton_clicked] a b c d f n
  show ?thesis by simp
qed

end
